theory Spec2Isabelle
  imports Main "HOL-Library.Sublist" "HOL-Library.Multiset"
begin

section \<open>Data model of \<^verbatim>\<open>src/App.tsx\<close>\<close>

text \<open>
  The application keeps one list of todo items. The interface \<^verbatim>\<open>Todo\<close> has the fields
  \<^verbatim>\<open>id\<close>, \<^verbatim>\<open>text\<close> and \<^verbatim>\<open>completed\<close>. The three mutations select different subsets of
  these fields in their responses: \<^verbatim>\<open>deleteTodo { id }\<close>, \<^verbatim>\<open>editTodo { id completed }\<close> and
  \<^verbatim>\<open>addTodo { id text completed }\<close>. The three shapes are one chain of record extensions,
  so that the selector \<open>id'\<close> reads the \<^verbatim>\<open>id\<close> of each of them. The names \<open>id\<close> and
  \<open>text\<close> are taken in Isabelle, hence the primes.
\<close>

record TodoId =
  id' :: string

record TodoIdCompleted = TodoId +
  completed :: bool

record Todo = TodoIdCompleted +
  text' :: string

text \<open>
  The object \<^verbatim>\<open>{ todos: ... }\<close> is both what \<^verbatim>\<open>cache.readQuery<{ todos: Todo[] }>\<close> returns
  (or \<^verbatim>\<open>null\<close>) and what \<^verbatim>\<open>cache.writeQuery\<close> is given as \<^verbatim>\<open>data\<close>. On the write side the
  property can be \<^verbatim>\<open>undefined\<close>, which is \<open>None\<close> here.
\<close>

record 'a TodosData =
  todos :: 'a

type_synonym query_result = "Todo list TodosData option"
type_synonym write_data = "Todo list option TodosData"

section \<open>The cache entry of \<^verbatim>\<open>TODOS_QUERY\<close>\<close>

text \<open>
  The Apollo cache is a library object. All the application does with it is to read and to
  write the result of the one query \<^verbatim>\<open>TODOS_QUERY\<close>, so the cache is the entry of that
  query: \<open>None\<close> while no result has been established, \<open>Some xs\<close> afterwards.
  \<^verbatim>\<open>readQuery\<close> returns \<^verbatim>\<open>null\<close> for a missing entry. \<^verbatim>\<open>writeQuery\<close> replaces the entry; a
  \<^verbatim>\<open>data\<close> object whose \<^verbatim>\<open>todos\<close> is \<^verbatim>\<open>undefined\<close> carries no field to store and leaves the entry
  as it is.
\<close>

type_synonym cache = "Todo list option"

definition readQuery :: "cache \<Rightarrow> query_result" where
  "readQuery cache = (case cache of None \<Rightarrow> None | Some xs \<Rightarrow> Some \<lparr>todos = xs\<rparr>)"

definition writeQuery :: "write_data \<Rightarrow> cache \<Rightarrow> cache" where
  "writeQuery data cache = (case todos data of None \<Rightarrow> cache | Some xs \<Rightarrow> Some xs)"

section \<open>The \<^verbatim>\<open>update\<close> callbacks of the three mutations\<close>

text \<open>
  Each callback reads the query, builds the \<^verbatim>\<open>data\<close> object and writes it. The \<^verbatim>\<open>data\<close>
  expression of each callback is a definition of its own (\<open>_data\<close>), so that the value handed
  to \<^verbatim>\<open>writeQuery\<close> can be examined.

  \<^verbatim>\<open>query?.todos.concat([addTodo])\<close>: the optional chain yields \<^verbatim>\<open>undefined\<close> when \<^verbatim>\<open>query\<close>
  is \<^verbatim>\<open>null\<close>, and otherwise a new array with \<^verbatim>\<open>addTodo\<close> after the elements of
  \<^verbatim>\<open>query.todos\<close>.
\<close>

definition addTodo_data :: "query_result \<Rightarrow> Todo \<Rightarrow> write_data" where
  "addTodo_data query addTodo =
     \<lparr>todos = (case query of None \<Rightarrow> None | Some q \<Rightarrow> Some (todos q @ [addTodo]))\<rparr>"

definition addTodo_update :: "cache \<Rightarrow> Todo \<Rightarrow> cache" where
  "addTodo_update cache addTodo =
     (let query = readQuery cache in writeQuery (addTodo_data query addTodo) cache)"

text \<open>
  \<^verbatim>\<open>update(cache)\<close> of the edit mutation declares no second parameter: the response that
  Apollo passes is dropped, which the unused argument \<open>editTodo\<close> records.
  \<^verbatim>\<open>query?.todos || []\<close>: an array is truthy even when empty, so the right operand is taken
  exactly when \<^verbatim>\<open>query\<close> is \<^verbatim>\<open>null\<close>.
\<close>

definition editTodo_data :: "query_result \<Rightarrow> write_data" where
  "editTodo_data query =
     (let todos = (case query of None \<Rightarrow> [] | Some q \<Rightarrow> TodosData.todos q)
      in \<lparr>todos = Some todos\<rparr>)"

definition editTodo_update :: "cache \<Rightarrow> TodoIdCompleted \<Rightarrow> cache" where
  "editTodo_update cache editTodo =
     (let query = readQuery cache in writeQuery (editTodo_data query) cache)"

text \<open>
  \<^verbatim>\<open>query?.todos.filter((t) => t.id !== deleteTodo.id)\<close>: \<^verbatim>\<open>undefined\<close> when \<^verbatim>\<open>query\<close> is
  \<^verbatim>\<open>null\<close>, otherwise a new array of the elements whose \<^verbatim>\<open>id\<close> differs, in their order.
\<close>

definition deleteTodo_data :: "query_result \<Rightarrow> TodoId \<Rightarrow> write_data" where
  "deleteTodo_data query deleteTodo =
     \<lparr>todos = (case query of None \<Rightarrow> None
                | Some q \<Rightarrow> Some (filter (\<lambda>t. id' t \<noteq> id' deleteTodo) (todos q)))\<rparr>"

definition deleteTodo_update :: "cache \<Rightarrow> TodoId \<Rightarrow> cache" where
  "deleteTodo_update cache deleteTodo =
     (let query = readQuery cache in writeQuery (deleteTodo_data query deleteTodo) cache)"

section \<open>Issuing mutations\<close>

text \<open>
  A mutate function is called with an options object \<^verbatim>\<open>{ variables: ... }\<close>. The three
  documents \<^verbatim>\<open>ADD_TODO_MUTATION\<close>, \<^verbatim>\<open>EDIT_TODO_MUTATION\<close> and \<^verbatim>\<open>DELETE_TODO_MUTATION\<close> with
  their variables are the requests that reach the remote API.
\<close>

record 'v MutationOptions =
  variables :: 'v

datatype request =
    ADD_TODO_MUTATION string
  | EDIT_TODO_MUTATION TodoIdCompleted
  | DELETE_TODO_MUTATION TodoId

text \<open>
  The handlers that \<^verbatim>\<open>App\<close> passes down close over the mutate functions, which are the
  first argument here. A handler returns nothing: the value of the mutate call is dropped
  and only its effect on the state \<open>'s\<close> remains. The parameters \<^verbatim>\<open>id\<close> and \<^verbatim>\<open>completed\<close> are \<open>ident\<close> and
  \<open>is_completed\<close>, as the former names are those of constants.
\<close>

definition onToggle ::
  "(TodoIdCompleted MutationOptions \<Rightarrow> 's \<Rightarrow> 'r \<times> 's) \<Rightarrow> string \<Rightarrow> bool \<Rightarrow> 's \<Rightarrow> 's" where
  "onToggle editTodo ident is_completed s =
     snd (editTodo \<lparr>variables = \<lparr>id' = ident, completed = \<not> is_completed\<rparr>\<rparr> s)"

definition onAdd ::
  "(string MutationOptions \<Rightarrow> 's \<Rightarrow> 'r \<times> 's) \<Rightarrow> string \<Rightarrow> 's \<Rightarrow> 's" where
  "onAdd addTodo text s = snd (addTodo \<lparr>variables = text\<rparr> s)"

definition onRemove ::
  "(TodoId MutationOptions \<Rightarrow> 's \<Rightarrow> 'r \<times> 's) \<Rightarrow> string \<Rightarrow> 's \<Rightarrow> 's" where
  "onRemove deleteTodo ident s = snd (deleteTodo \<lparr>variables = \<lparr>id' = ident\<rparr>\<rparr> s)"

record client =
  entry :: cache
  sent :: "request list"

text \<open>
  Modelled from the spec: the hook \<^verbatim>\<open>useMutation\<close> belongs to the Apollo client and is
  not part of the source file, which only calls it with a document and an \<^verbatim>\<open>update\<close>
  option. The specification says of a mutation that it "either completes and triggers
  reconciliation, or fails and triggers no cache mutation", that a failure is "surfaced to
  caller, no cache write", and that "no optimistic write happens before success". The
  mutate function therefore sends the request, and then either returns the failure
  (\<open>Inl\<close>) with the cache entry as it was, or runs \<^verbatim>\<open>update\<close> on the response and returns it
  (\<open>Inr\<close>). The answer of the remote API is the parameter \<open>remote\<close>.
\<close>

definition useMutation ::
  "('v \<Rightarrow> request) \<Rightarrow> (cache \<Rightarrow> 'r \<Rightarrow> cache) \<Rightarrow> ('v \<Rightarrow> string + 'r) \<Rightarrow>
   'v MutationOptions \<Rightarrow> client \<Rightarrow> (string + 'r) \<times> client" where
  "useMutation mutation update remote options s =
     (let s1 = s\<lparr>sent := sent s @ [mutation (variables options)]\<rparr>
      in case remote (variables options) of
           Inl failure \<Rightarrow> (Inl failure, s1)
         | Inr response \<Rightarrow> (Inr response, s1\<lparr>entry := update (entry s1) response\<rparr>))"

text \<open>The three mutate functions that \<^verbatim>\<open>App\<close> obtains from the hook.\<close>

definition addTodo ::
  "(string \<Rightarrow> string + Todo) \<Rightarrow> string MutationOptions \<Rightarrow> client \<Rightarrow> (string + Todo) \<times> client" where
  "addTodo = useMutation ADD_TODO_MUTATION addTodo_update"

definition editTodo ::
  "(TodoIdCompleted \<Rightarrow> string + TodoIdCompleted) \<Rightarrow> TodoIdCompleted MutationOptions \<Rightarrow>
   client \<Rightarrow> (string + TodoIdCompleted) \<times> client" where
  "editTodo = useMutation EDIT_TODO_MUTATION editTodo_update"

definition deleteTodo ::
  "(TodoId \<Rightarrow> string + TodoId) \<Rightarrow> TodoId MutationOptions \<Rightarrow> client \<Rightarrow>
   (string + TodoId) \<times> client" where
  "deleteTodo = useMutation DELETE_TODO_MUTATION deleteTodo_update"

section \<open>Rendering\<close>

text \<open>
  \<^verbatim>\<open>Array.prototype.sort\<close> sorts the array it is called on and returns that same array, so
  rendering is modelled over a store of arrays: a reference is an index into the list of
  all arrays allocated so far.

  The comparator of \<^verbatim>\<open>TodoList\<close>, with its three \<^verbatim>\<open>return\<close>s in the order of the source.
\<close>

type_synonym ref = nat
type_synonym heap = "Todo list list"

definition TodoList_compare :: "Todo \<Rightarrow> Todo \<Rightarrow> int" where
  "TodoList_compare a b =
     (if completed a \<and> \<not> completed b then - 1
      else if \<not> completed a \<and> completed b then 1
      else 0)"

text \<open>
  The language fixes the result of \<^verbatim>\<open>sort\<close> for a consistent comparator: the elements in
  ascending order of the comparator, elements that compare equal in their original order.
  A stable insertion sort computes it: an element goes in front of the first later element
  that it does not compare greater than.
\<close>

fun insert_cmp :: "('a \<Rightarrow> 'a \<Rightarrow> int) \<Rightarrow> 'a \<Rightarrow> 'a list \<Rightarrow> 'a list" where
  "insert_cmp cmp x [] = [x]"
| "insert_cmp cmp x (y # ys) =
     (if cmp x y \<le> 0 then x # y # ys else y # insert_cmp cmp x ys)"

definition sort_cmp :: "('a \<Rightarrow> 'a \<Rightarrow> int) \<Rightarrow> 'a list \<Rightarrow> 'a list" where
  "sort_cmp cmp xs = foldr (insert_cmp cmp) xs []"

definition Array_sort :: "(Todo \<Rightarrow> Todo \<Rightarrow> int) \<Rightarrow> ref \<Rightarrow> heap \<Rightarrow> ref \<times> heap" where
  "Array_sort cmp a h = (a, h[a := sort_cmp cmp (h ! a)])"

text \<open>\<^verbatim>\<open>[...xs]\<close> and the default \<^verbatim>\<open>todos = []\<close> allocate a new array.\<close>

definition Array_new :: "Todo list \<Rightarrow> heap \<Rightarrow> ref \<times> heap" where
  "Array_new xs h = (length h, h @ [xs])"

definition spread :: "ref \<Rightarrow> heap \<Rightarrow> ref \<times> heap" where
  "spread a h = Array_new (h ! a) h"

text \<open>
  \<^verbatim>\<open>TodoList\<close> sorts the array of its \<^verbatim>\<open>todos\<close> property and maps the sorted array to list
  items, one for each element in that order; the rendered list is given by the elements.
\<close>

definition TodoList :: "ref option \<Rightarrow> heap \<Rightarrow> Todo list \<times> heap" where
  "TodoList todos_prop h =
     (let (todos, h1) = (case todos_prop of None \<Rightarrow> Array_new [] h | Some a \<Rightarrow> (a, h));
          (sorted, h2) = Array_sort TodoList_compare todos h1
      in (h2 ! sorted, h2))"

text \<open>
  \<^verbatim>\<open>App\<close> renders from the result of \<^verbatim>\<open>useQuery\<close>, whose \<^verbatim>\<open>data.todos\<close> is the array held by
  the cache. Reading \<^verbatim>\<open>data.todos\<close> while \<^verbatim>\<open>data\<close> is \<^verbatim>\<open>undefined\<close> throws.
\<close>

record QueryResult =
  loading :: bool
  error :: "string option"
  data :: "ref TodosData option"

datatype element = Span_Loading | Span_Error string | Page "Todo list"

datatype js_error = TypeError

definition App :: "QueryResult \<Rightarrow> heap \<Rightarrow> js_error + (element \<times> heap)" where
  "App q h =
     (if loading q then Inr (Span_Loading, h)
      else case error q of
        Some message \<Rightarrow> Inr (Span_Error message, h)
      | None \<Rightarrow>
          (case data q of
             None \<Rightarrow> Inl TypeError
           | Some d \<Rightarrow>
               (let (todoList, h1) = spread (todos d) h;
                    (items, h2) = TodoList (Some todoList) h1
                in Inr (Page items, h2))))"

section \<open>Insertion\<close>

lemma addTodo_update_established:
  "addTodo_update (Some X) e = Some (X @ [e])"
  by (simp add: addTodo_update_def addTodo_data_def readQuery_def writeQuery_def)

lemma addTodo_update_foldl:
  "foldl addTodo_update (Some X) es = Some (X @ es)"
proof (induction es arbitrary: X)
  case Nil
  show ?case by simp
next
  case (Cons e es)
  have "foldl addTodo_update (Some X) (e # es) = foldl addTodo_update (Some (X @ [e])) es"
    by (simp add: addTodo_update_established)
  also have "\<dots> = Some ((X @ [e]) @ es)"
    by (rule Cons.IH)
  finally show ?case by simp
qed

text \<open>
  C1. On an established cache \<open>X\<close>, the \<^verbatim>\<open>update\<close> of the add mutation hands
  \<open>X\<close> with the new entity appended to \<^verbatim>\<open>writeQuery\<close>, and that becomes the cache entry.
  Consequently any run of successful inserts \<open>es\<close> from an established cache \<open>X\<close> ends in a
  cache whose length is the length of \<open>X\<close> plus the number of inserts, which begins with
  \<open>X\<close> and whose tail is \<open>es\<close> in insertion order. This holds for all inserted entities,
  so in particular for those with distinct IDs.
\<close>

theorem Insert_on_success_appends:
  "addTodo_data (Some \<lparr>todos = X\<rparr>) e = \<lparr>todos = Some (X @ [e])\<rparr>
   \<and> addTodo_update (Some X) e = Some (X @ [e])
   \<and> (\<exists>Y. foldl addTodo_update (Some X) es = Some Y
         \<and> length Y = length X + length es
         \<and> take (length X) Y = X
         \<and> drop (length X) Y = es)"
  by (simp add: addTodo_data_def addTodo_update_established addTodo_update_foldl)

section \<open>Removal\<close>

lemma deleteTodo_update_established:
  "deleteTodo_update (Some X) r = Some (filter (\<lambda>t. id' t \<noteq> id' r) X)"
  by (simp add: deleteTodo_update_def deleteTodo_data_def readQuery_def writeQuery_def)

text \<open>
  C2. On an established cache \<open>X\<close>, the \<^verbatim>\<open>update\<close> of the delete mutation with the
  confirmed ID \<open>d\<close> hands to \<^verbatim>\<open>writeQuery\<close>, and leaves as the cache entry, the elements
  of \<open>X\<close> whose ID is not \<open>d\<close>: a subsequence of \<open>X\<close> (so the remaining entities keep
  their relative order) in which no entity has the ID \<open>d\<close> and in which every other
  entity of \<open>X\<close> occurs as often as in \<open>X\<close>.
\<close>

theorem Remove_on_success_filters:
  "deleteTodo_data (Some \<lparr>todos = X\<rparr>) \<lparr>id' = d\<rparr> = \<lparr>todos = Some (filter (\<lambda>t. id' t \<noteq> d) X)\<rparr>
   \<and> (\<exists>Y. deleteTodo_update (Some X) \<lparr>id' = d\<rparr> = Some Y
         \<and> Y = filter (\<lambda>t. id' t \<noteq> d) X
         \<and> subseq Y X
         \<and> (\<forall>t\<in>set Y. id' t \<noteq> d)
         \<and> (\<forall>t\<in>set X. id' t \<noteq> d \<longrightarrow> count_list Y t = count_list X t))"
proof -
  have "count_list (filter P X) t = count_list X t" if "P t" for P and t :: Todo
    using that by (induction X) simp_all
  then show ?thesis
    by (simp add: deleteTodo_data_def deleteTodo_update_established)
qed

text \<open>
  The second end-to-end scenario of the specification: removing \<open>''1''\<close> from the cache
  of the entities \<open>''1''\<close> and \<open>''2''\<close> leaves the entity \<open>''2''\<close>.
\<close>

theorem Remove_on_success_filters_witness:
  "deleteTodo_update
     (Some [\<lparr>id' = ''1'', completed = False, text' = ''a''\<rparr>,
            \<lparr>id' = ''2'', completed = True, text' = ''b''\<rparr>])
     \<lparr>id' = ''1''\<rparr>
   = Some [\<lparr>id' = ''2'', completed = True, text' = ''b''\<rparr>]"
  using Remove_on_success_filters
    [of "[\<lparr>id' = ''1'', completed = False, text' = ''a''\<rparr>,
          \<lparr>id' = ''2'', completed = True, text' = ''b''\<rparr>]" "''1''"]
  by simp

text \<open>
  C5. Removal is idempotent: applying the \<^verbatim>\<open>update\<close> of the delete mutation for the same
  response a second time yields the cache entry that the first application produced.
\<close>

theorem Remove_on_success_idempotent:
  "deleteTodo_update (deleteTodo_update (Some X) r) r = deleteTodo_update (Some X) r"
  by (simp add: deleteTodo_update_established)

text \<open>
  C6. Removing an ID that no entity of the cached sequence \<open>X\<close> carries writes back
  \<open>X\<close> itself: the same entities in the same order.
\<close>

theorem Remove_on_success_absent_id:
  assumes "\<forall>t\<in>set X. id' t \<noteq> d"
  shows "deleteTodo_data (Some \<lparr>todos = X\<rparr>) \<lparr>id' = d\<rparr> = \<lparr>todos = Some X\<rparr>
         \<and> deleteTodo_update (Some X) \<lparr>id' = d\<rparr> = Some X"
proof -
  from assms have "filter (\<lambda>t. id' t \<noteq> d) X = X"
    by (simp add: filter_id_conv)
  then show ?thesis
    by (simp add: deleteTodo_data_def deleteTodo_update_established)
qed

text \<open>
  The third end-to-end scenario of the specification: removing \<open>''9''\<close> from the cache
  that holds only the entity \<open>''1''\<close>.
\<close>

theorem Remove_on_success_absent_id_witness:
  "id' \<lparr>id' = ''1'', completed = False, text' = ''a''\<rparr> \<noteq> ''9''
   \<and> deleteTodo_update (Some [\<lparr>id' = ''1'', completed = False, text' = ''a''\<rparr>]) \<lparr>id' = ''9''\<rparr>
       = Some [\<lparr>id' = ''1'', completed = False, text' = ''a''\<rparr>]"
proof -
  have h: "\<forall>t\<in>set [\<lparr>id' = ''1'', completed = False, text' = ''a''\<rparr>]. id' t \<noteq> ''9''"
    by simp
  show ?thesis
    using h Remove_on_success_absent_id [OF h] by simp
qed

section \<open>Patching\<close>

lemma editTodo_update_established:
  "editTodo_update (Some X) r = Some X"
  by (simp add: editTodo_update_def editTodo_data_def readQuery_def writeQuery_def)

text \<open>
  C4. On an established cache \<open>X\<close> and for every response \<open>r\<close> of a successful
  toggle, the \<^verbatim>\<open>update\<close> of the edit mutation writes back \<open>X\<close> itself. The written
  sequence has the length of \<open>X\<close> and its ID set, and being equal to \<open>X\<close> it has every
  entity of \<open>X\<close> with its fields at its position: nothing is taken from \<open>r\<close> and
  nothing is reordered.
\<close>

theorem Patch_on_success_keeps_sequence:
  "editTodo_data (Some \<lparr>todos = X\<rparr>) = \<lparr>todos = Some X\<rparr>
   \<and> (\<exists>Y. editTodo_update (Some X) r = Some Y
         \<and> Y = X
         \<and> length Y = length X
         \<and> set (map id' Y) = set (map id' X))"
  by (simp add: editTodo_data_def editTodo_update_established)

section \<open>The cache miss\<close>

text \<open>
  The edit path treats a missing query result as the empty sequence: it writes the same
  \<^verbatim>\<open>data\<close> for \<^verbatim>\<open>null\<close> as for an established empty sequence.
\<close>

lemma editTodo_data_cache_miss:
  "editTodo_data None = editTodo_data (Some \<lparr>todos = []\<rparr>)"
  by (simp add: editTodo_data_def)



section \<open>Failed mutations\<close>

text \<open>
  C7. When the remote API rejects an add, a toggle or a delete, the mutate function
  returns the failure to its caller and the cache entry after the call is the entry
  before it: the \<^verbatim>\<open>update\<close> callbacks, which hold the only cache writes of the
  application, run on success only.
\<close>

theorem MutationFailure_leaves_cache:
  "(add_remote (variables oa) = Inl failure \<longrightarrow>
      fst (addTodo add_remote oa s) = Inl failure
      \<and> entry (snd (addTodo add_remote oa s)) = entry s)
   \<and> (edit_remote (variables oe) = Inl failure \<longrightarrow>
      fst (editTodo edit_remote oe s) = Inl failure
      \<and> entry (snd (editTodo edit_remote oe s)) = entry s)
   \<and> (delete_remote (variables od) = Inl failure \<longrightarrow>
      fst (deleteTodo delete_remote od s) = Inl failure
      \<and> entry (snd (deleteTodo delete_remote od s)) = entry s)"
  by (simp add: addTodo_def editTodo_def deleteTodo_def useMutation_def Let_def)

text \<open>
  The fourth end-to-end scenario of the specification: a rejected add on the cache that
  holds the entity \<open>''1''\<close>.
\<close>

theorem MutationFailure_leaves_cache_witness:
  "addTodo (\<lambda>text. Inl ''rejected'') \<lparr>variables = ''buy milk''\<rparr>
     \<lparr>entry = Some [\<lparr>id' = ''1'', completed = False, text' = ''a''\<rparr>], sent = []\<rparr>
   = (Inl ''rejected'',
      \<lparr>entry = Some [\<lparr>id' = ''1'', completed = False, text' = ''a''\<rparr>],
       sent = [ADD_TODO_MUTATION ''buy milk'']\<rparr>)"
proof -
  let ?s = "\<lparr>entry = Some [\<lparr>id' = ''1'', completed = False, text' = ''a''\<rparr>], sent = []\<rparr>"
  let ?r = "\<lambda>text :: string. (Inl ''rejected'' :: string + Todo)"
  have "fst (addTodo ?r \<lparr>variables = ''buy milk''\<rparr> ?s) = Inl ''rejected''
        \<and> entry (snd (addTodo ?r \<lparr>variables = ''buy milk''\<rparr> ?s)) = entry ?s"
    using MutationFailure_leaves_cache
      [of ?r "\<lparr>variables = ''buy milk''\<rparr>" "''rejected''" ?s] by simp
  moreover have "sent (snd (addTodo ?r \<lparr>variables = ''buy milk''\<rparr> ?s)) = [ADD_TODO_MUTATION ''buy milk'']"
    by (simp add: addTodo_def useMutation_def)
  ultimately show ?thesis
    by (cases "addTodo ?r \<lparr>variables = ''buy milk''\<rparr> ?s") (auto)
qed

section \<open>The toggle handler\<close>

text \<open>
  C9. For every ID \<open>i\<close> and boolean \<open>c\<close>, \<^verbatim>\<open>onToggle\<close> calls the mutate function of the
  edit mutation, whatever that function is, with the variables \<open>id = i\<close> and
  \<open>completed = \<not> c\<close>. With the mutate function of the hook, the one request sent is the
  edit mutation with these variables.
\<close>

theorem onToggle_requests_negation:
  "onToggle mutate i c s = snd (mutate \<lparr>variables = \<lparr>id' = i, completed = \<not> c\<rparr>\<rparr> s)
   \<and> sent (onToggle (editTodo remote) i c s0)
       = sent s0 @ [EDIT_TODO_MUTATION \<lparr>id' = i, completed = \<not> c\<rparr>]"
  by (simp add: onToggle_def editTodo_def useMutation_def Let_def split: sum.split)

section \<open>The display order\<close>

lemma insert_cmp_completed:
  "completed x \<Longrightarrow> insert_cmp TodoList_compare x ys = x # ys"
  by (cases ys) (simp_all add: TodoList_compare_def)

lemma insert_cmp_not_completed:
  "\<not> completed x \<Longrightarrow> \<forall>y\<in>set cs. completed y \<Longrightarrow> \<forall>y\<in>set ns. \<not> completed y \<Longrightarrow>
   insert_cmp TodoList_compare x (cs @ ns) = cs @ x # ns"
proof (induction cs)
  case Nil
  then show ?case by (cases ns) (simp_all add: TodoList_compare_def)
next
  case (Cons c cs)
  then show ?case by (simp add: TodoList_compare_def)
qed

lemma sort_cmp_partition:
  "sort_cmp TodoList_compare xs = filter completed xs @ filter (\<lambda>t. \<not> completed t) xs"
proof (induction xs)
  case Nil
  show ?case by (simp add: sort_cmp_def)
next
  case (Cons x xs)
  have step: "sort_cmp TodoList_compare (x # xs) = insert_cmp TodoList_compare x (sort_cmp TodoList_compare xs)"
    by (simp add: sort_cmp_def)
  show ?case
  proof (cases "completed x")
    case True
    then show ?thesis by (simp add: step Cons.IH insert_cmp_completed)
  next
    case False
    then show ?thesis by (simp add: step Cons.IH insert_cmp_not_completed)
  qed
qed

lemma partition_order:
  assumes "i < j" and "j < length (cs @ ns)" and "completed ((cs @ ns) ! j)"
    and cs: "\<forall>t\<in>set cs. completed t" and ns: "\<forall>t\<in>set ns. \<not> completed t"
  shows "completed ((cs @ ns) ! i)"
proof -
  have "j < length cs"
  proof (rule ccontr)
    assume "\<not> j < length cs"
    then have "(cs @ ns) ! j = ns ! (j - length cs)" and "j - length cs < length ns"
      using assms(2) by (simp_all add: nth_append)
    then have "(cs @ ns) ! j \<in> set ns" by simp
    with ns assms(3) show False by blast
  qed
  with assms(1) have "i < length cs" by simp
  then have "(cs @ ns) ! i \<in> set cs" by (simp add: nth_append)
  with cs show ?thesis by blast
qed

lemma mset_partition_completed:
  "mset (filter completed xs @ filter (\<lambda>t. \<not> completed t) xs) = mset xs"
  by (induction xs) simp_all

text \<open>
  \<^verbatim>\<open>TodoList\<close> sorts the array it is given in place: called on the array of the cache
  itself it would reorder that array.
\<close>

lemma TodoList_in_place:
  "a < length h \<Longrightarrow>
   TodoList (Some a) h = (sort_cmp TodoList_compare (h ! a), h[a := sort_cmp TodoList_compare (h ! a)])"
  by (simp add: TodoList_def Array_sort_def)

text \<open>
  C10. For every array of entities, the order that \<^verbatim>\<open>TodoList\<close> displays is the result
  of the sort with its comparator, and it is the completed entities of the array in their
  original order followed by the others in their original order. So the displayed list
  is a rearrangement of the array, no completed entity comes after one that is not
  completed, and the entities of either flag keep their relative order; the comparator
  returns 0 for two entities with equal flags.
\<close>

theorem TodoList_completed_first:
  assumes "a < length h"
  shows "\<exists>ys. fst (TodoList (Some a) h) = ys
          \<and> ys = sort_cmp TodoList_compare (h ! a)
          \<and> ys = filter completed (h ! a) @ filter (\<lambda>t. \<not> completed t) (h ! a)
          \<and> mset ys = mset (h ! a)
          \<and> (\<forall>i j. i < j \<and> j < length ys \<and> completed (ys ! j) \<longrightarrow> completed (ys ! i))
          \<and> filter completed ys = filter completed (h ! a)
          \<and> filter (\<lambda>t. \<not> completed t) ys = filter (\<lambda>t. \<not> completed t) (h ! a)
          \<and> (\<forall>x y. completed x = completed y \<longrightarrow> TodoList_compare x y = 0)"
proof -
  let ?xs = "h ! a"
  define ys where "ys = filter completed ?xs @ filter (\<lambda>t. \<not> completed t) ?xs"
  have sorted: "sort_cmp TodoList_compare ?xs = ys"
    unfolding ys_def by (rule sort_cmp_partition)
  have cs: "\<forall>t\<in>set (filter completed ?xs). completed t"
    by simp
  have ns: "\<forall>t\<in>set (filter (\<lambda>t. \<not> completed t) ?xs). \<not> completed t"
    by simp
  show ?thesis
  proof (intro exI [of _ ys] conjI allI impI)
    show "fst (TodoList (Some a) h) = ys"
      using assms by (simp add: TodoList_in_place sorted)
    show "ys = sort_cmp TodoList_compare ?xs"
      by (simp only: sorted)
    show "ys = filter completed ?xs @ filter (\<lambda>t. \<not> completed t) ?xs"
      by (rule ys_def)
    show "mset ys = mset ?xs"
      unfolding ys_def by (rule mset_partition_completed)
    show "completed (ys ! i)" if "i < j \<and> j < length ys \<and> completed (ys ! j)" for i j
      using that partition_order [OF _ _ _ cs ns, of i j] unfolding ys_def by blast
    show "filter completed ys = filter completed ?xs"
      unfolding ys_def by simp
    show "filter (\<lambda>t. \<not> completed t) ys = filter (\<lambda>t. \<not> completed t) ?xs"
      unfolding ys_def by simp
    show "TodoList_compare x y = 0" if "completed x = completed y" for x y
      using that by (simp add: TodoList_compare_def)
  qed
qed

text \<open>
  An array in which completed and other entities alternate.
\<close>

theorem TodoList_completed_first_witness:
  "0 < length [[\<lparr>id' = ''1'', completed = False, text' = ''a''\<rparr>,
                \<lparr>id' = ''2'', completed = True, text' = ''b''\<rparr>,
                \<lparr>id' = ''3'', completed = False, text' = ''c''\<rparr>,
                \<lparr>id' = ''4'', completed = True, text' = ''d''\<rparr>]]
   \<and> fst (TodoList (Some 0)
            [[\<lparr>id' = ''1'', completed = False, text' = ''a''\<rparr>,
              \<lparr>id' = ''2'', completed = True, text' = ''b''\<rparr>,
              \<lparr>id' = ''3'', completed = False, text' = ''c''\<rparr>,
              \<lparr>id' = ''4'', completed = True, text' = ''d''\<rparr>]])
       = [\<lparr>id' = ''2'', completed = True, text' = ''b''\<rparr>,
          \<lparr>id' = ''4'', completed = True, text' = ''d''\<rparr>,
          \<lparr>id' = ''1'', completed = False, text' = ''a''\<rparr>,
          \<lparr>id' = ''3'', completed = False, text' = ''c''\<rparr>]"
proof -
  let ?h = "[[\<lparr>id' = ''1'', completed = False, text' = ''a''\<rparr>,
              \<lparr>id' = ''2'', completed = True, text' = ''b''\<rparr>,
              \<lparr>id' = ''3'', completed = False, text' = ''c''\<rparr>,
              \<lparr>id' = ''4'', completed = True, text' = ''d''\<rparr>]]"
  have l: "0 < length ?h" by simp
  obtain ys where "fst (TodoList (Some 0) ?h) = ys"
    and "ys = filter completed (?h ! 0) @ filter (\<lambda>t. \<not> completed t) (?h ! 0)"
    using TodoList_completed_first [OF l] by blast
  then show ?thesis by simp
qed

section \<open>Rendering and the cached array\<close>

lemma App_data:
  assumes "\<not> loading q" and "error q = None" and "data q = Some \<lparr>todos = a\<rparr>"
  shows "App q h = Inr (Page (sort_cmp TodoList_compare (h ! a)),
                        h @ [sort_cmp TodoList_compare (h ! a)])"
  using assms by (simp add: App_def spread_def Array_new_def TodoList_def Array_sort_def)

text \<open>
  The page with the input and the list, and so the handlers that issue the mutations, is
  rendered only when the query has loaded without error and its data is present.
\<close>

lemma App_page_needs_data:
  assumes "App q h = Inr (Page items, h')"
  shows "\<not> loading q \<and> error q = None \<and> (\<exists>d. data q = Some d)"
  using assms by (auto simp add: App_def split: if_splits option.splits)

lemma App_frame:
  assumes "App q h = Inr (v, h')" and "b < length h"
  shows "h' ! b = h ! b"
proof (cases "\<not> loading q \<and> error q = None")
  case True
  with assms(1) obtain d where d: "data q = Some d"
    by (cases "data q") (simp_all add: App_def)
  then have "data q = Some \<lparr>todos = todos d\<rparr>" by simp
  with True have "App q h = Inr (Page (sort_cmp TodoList_compare (h ! todos d)),
                        h @ [sort_cmp TodoList_compare (h ! todos d)])"
    by (simp add: App_data)
  with assms(1) have "h' = h @ [sort_cmp TodoList_compare (h ! todos d)]"
    by simp
  with assms(2) show ?thesis by (simp add: nth_append)
next
  case False
  with assms(1) have "h' = h"
    by (auto simp add: App_def split: if_splits option.splits)
  then show ?thesis by simp
qed

text \<open>
  C8. The display sort is a transform at read time only. \<^verbatim>\<open>App\<close> copies \<^verbatim>\<open>data.todos\<close>
  into a new array before \<^verbatim>\<open>TodoList\<close> sorts, so for every array \<open>a\<close> held by the cache,
  rendering returns, and afterwards \<open>a\<close> holds the sequence it held before, as does
  every other array that existed before the rendering.
\<close>

theorem App_render_leaves_cached_array:
  assumes "data q = Some \<lparr>todos = a\<rparr>" and "a < length h"
  shows "\<exists>v h'. App q h = Inr (v, h') \<and> h' ! a = h ! a \<and> (\<forall>b<length h. h' ! b = h ! b)"
proof -
  have "\<exists>v h'. App q h = Inr (v, h')"
  proof (cases "\<not> loading q \<and> error q = None")
    case True
    with assms(1) show ?thesis by (simp add: App_data)
  next
    case False
    then show ?thesis by (auto simp add: App_def)
  qed
  then obtain v h' where r: "App q h = Inr (v, h')" by blast
  then have "\<forall>b<length h. h' ! b = h ! b"
    using App_frame by blast
  with r assms(2) show ?thesis by blast
qed

text \<open>
  A cached array whose display order differs from its stored order: the page shows the
  completed entity first, the array of the cache is as it was, and the sorted copy is a
  second array.
\<close>

theorem App_render_leaves_cached_array_witness:
  "App \<lparr>loading = False, error = None, data = Some \<lparr>todos = 0\<rparr>\<rparr>
     [[\<lparr>id' = ''1'', completed = False, text' = ''a''\<rparr>,
       \<lparr>id' = ''2'', completed = True, text' = ''b''\<rparr>]]
   = Inr (Page [\<lparr>id' = ''2'', completed = True, text' = ''b''\<rparr>,
                \<lparr>id' = ''1'', completed = False, text' = ''a''\<rparr>],
          [[\<lparr>id' = ''1'', completed = False, text' = ''a''\<rparr>,
            \<lparr>id' = ''2'', completed = True, text' = ''b''\<rparr>],
           [\<lparr>id' = ''2'', completed = True, text' = ''b''\<rparr>,
            \<lparr>id' = ''1'', completed = False, text' = ''a''\<rparr>]])
   \<and> (\<exists>v h'. App \<lparr>loading = False, error = None, data = Some \<lparr>todos = 0\<rparr>\<rparr>
           [[\<lparr>id' = ''1'', completed = False, text' = ''a''\<rparr>,
             \<lparr>id' = ''2'', completed = True, text' = ''b''\<rparr>]] = Inr (v, h')
         \<and> h' ! 0 = [\<lparr>id' = ''1'', completed = False, text' = ''a''\<rparr>,
                       \<lparr>id' = ''2'', completed = True, text' = ''b''\<rparr>])"
proof -
  let ?q = "\<lparr>loading = False, error = None, data = Some \<lparr>todos = 0\<rparr>\<rparr>"
  let ?h = "[[\<lparr>id' = ''1'', completed = False, text' = ''a''\<rparr>,
              \<lparr>id' = ''2'', completed = True, text' = ''b''\<rparr>]]"
  have d: "data ?q = Some \<lparr>todos = 0\<rparr>" by simp
  have l: "0 < length ?h" by simp
  have "\<exists>v h'. App ?q ?h = Inr (v, h') \<and> h' ! 0 = ?h ! 0"
    using App_render_leaves_cached_array [OF d l] by blast
  moreover have "App ?q ?h = Inr (Page [\<lparr>id' = ''2'', completed = True, text' = ''b''\<rparr>,
                \<lparr>id' = ''1'', completed = False, text' = ''a''\<rparr>],
          [[\<lparr>id' = ''1'', completed = False, text' = ''a''\<rparr>,
            \<lparr>id' = ''2'', completed = True, text' = ''b''\<rparr>],
           [\<lparr>id' = ''2'', completed = True, text' = ''b''\<rparr>,
            \<lparr>id' = ''1'', completed = False, text' = ''a''\<rparr>]])"
    by (simp add: App_def spread_def Array_new_def TodoList_def Array_sort_def sort_cmp_def
        TodoList_compare_def)
  ultimately show ?thesis by simp
qed

end
